theory Spec2Isabelle
  imports Complex_Main "HOL-Library.Multiset" "HOL-Library.AList"
begin

section \<open>Violation history store (db/crud/violations.py)\<close>

text \<open>
  Timestamps are the values of \<^verbatim>\<open>time.time()\<close>: seconds since the epoch. They are
  modelled as real numbers; the clock reading is an explicit argument \<open>now\<close> of every
  operation that calls \<^verbatim>\<open>time.time()\<close>.

  Modelled from the spec: the row type \<^verbatim>\<open>ViolationHistory\<close> of \<^verbatim>\<open>db.models\<close>, which is not
  among the sources. Its columns are the ones \<^verbatim>\<open>ViolationHistoryCRUD.add\<close> fills in, plus
  the primary key \<^verbatim>\<open>id\<close> that \<^verbatim>\<open>get_violation_count\<close> counts.
\<close>

record ViolationHistory =
  vid :: nat
  username :: string
  timestamp :: real
  step_applied :: int
  disable_duration :: int
  ip_count :: "int option"
  ips :: "string list option"

text \<open>
  The table behind the session: its rows in insertion order and the next value of the
  auto-incremented primary key.
\<close>

record violation_table =
  rows :: "ViolationHistory list"
  next_id :: nat

text \<open>
  \<^verbatim>\<open>add\<close>: builds the row with \<^verbatim>\<open>timestamp=time.time()\<close>, adds it to the session, flushes
  and returns it.
\<close>

definition add ::
  "real \<Rightarrow> violation_table \<Rightarrow> string \<Rightarrow> int \<Rightarrow> int \<Rightarrow> int option \<Rightarrow> string list option
     \<Rightarrow> ViolationHistory \<times> violation_table" where
  "add now db u step dur cnt addrs =
     (let violation = \<lparr>vid = next_id db, username = u, timestamp = now,
                        step_applied = step, disable_duration = dur,
                        ip_count = cnt, ips = addrs\<rparr>
      in (violation, \<lparr>rows = rows db @ [violation], next_id = Suc (next_id db)\<rparr>))"

text \<open>
  The \<^verbatim>\<open>WHERE\<close> clause shared by the two windowed queries:
  \<^verbatim>\<open>and_(username == username, timestamp >= cutoff)\<close> with
  \<^verbatim>\<open>cutoff = time.time() - (window_hours * 3600)\<close>.
\<close>

definition cutoff :: "real \<Rightarrow> int \<Rightarrow> real" where
  "cutoff now window_hours = now - of_int (window_hours * 3600)"

definition in_window :: "real \<Rightarrow> string \<Rightarrow> int \<Rightarrow> ViolationHistory \<Rightarrow> bool" where
  "in_window now u window_hours r \<longleftrightarrow>
     username r = u \<and> timestamp r \<ge> cutoff now window_hours"

text \<open>
  \<^verbatim>\<open>get_user_violations\<close>: the selected rows under \<^verbatim>\<open>ORDER BY timestamp DESC\<close>. SQL leaves
  the order of rows with equal timestamps open; the model keeps them in insertion order
  (a stable sort on the negated timestamp).
\<close>

definition get_user_violations ::
  "real \<Rightarrow> violation_table \<Rightarrow> string \<Rightarrow> int \<Rightarrow> ViolationHistory list" where
  "get_user_violations now db u window_hours =
     sort_key (\<lambda>r. - timestamp r) (filter (in_window now u window_hours) (rows db))"

text \<open>
  \<^verbatim>\<open>get_violation_count\<close>: \<^verbatim>\<open>SELECT count(id)\<close> over the same \<^verbatim>\<open>WHERE\<close> clause; the primary
  key is never NULL, so every selected row is counted.
\<close>

definition get_violation_count :: "real \<Rightarrow> violation_table \<Rightarrow> string \<Rightarrow> int \<Rightarrow> nat" where
  "get_violation_count now db u window_hours =
     length (filter (in_window now u window_hours) (rows db))"

text \<open>
  \<^verbatim>\<open>clear_user\<close>: \<^verbatim>\<open>DELETE ... WHERE username == username\<close>; returns \<^verbatim>\<open>rowcount\<close>, the
  number of rows deleted.
\<close>

definition clear_user :: "violation_table \<Rightarrow> string \<Rightarrow> nat \<times> violation_table" where
  "clear_user db u =
     (length (filter (\<lambda>r. username r = u) (rows db)),
      db\<lparr>rows := filter (\<lambda>r. username r \<noteq> u) (rows db)\<rparr>)"

text \<open>\<^verbatim>\<open>clear_all\<close>: \<^verbatim>\<open>DELETE\<close> without a condition.\<close>

definition clear_all :: "violation_table \<Rightarrow> nat \<times> violation_table" where
  "clear_all db = (length (rows db), db\<lparr>rows := []\<rparr>)"

text \<open>\<^verbatim>\<open>cleanup_old\<close>: deletes the rows older than \<open>days\<close> days.\<close>

definition cleanup_old :: "real \<Rightarrow> violation_table \<Rightarrow> int \<Rightarrow> nat \<times> violation_table" where
  "cleanup_old now db days =
     (let c = now - of_int (days * 24 * 3600)
      in (length (filter (\<lambda>r. timestamp r < c) (rows db)),
          db\<lparr>rows := filter (\<lambda>r. \<not> timestamp r < c) (rows db)\<rparr>))"


section \<open>Punishment configuration commands (telegram_bot/main.py)\<close>

text \<open>
  The values \<^verbatim>\<open>json.loads\<close> produces and the configuration holds. A Python \<^verbatim>\<open>dict\<close> is an
  association list with unique keys in insertion order; \<^verbatim>\<open>bool\<close> and \<^verbatim>\<open>int\<close> are separate
  constructors, and the Python operations below say where a \<^verbatim>\<open>bool\<close> counts as an \<^verbatim>\<open>int\<close>.
\<close>

datatype json =
    JNull
  | JBool bool
  | JInt int
  | JFloat real
  | JStr string
  | JArr "json list"
  | JObj "(string \<times> json) list"

type_synonym config = "(string \<times> json) list"

text \<open>The exceptions the two commands can meet; a \<^verbatim>\<open>ValueError\<close> is kept apart by its cause.\<close>

datatype error =
    JSONDecodeError
  | ValueError_not_nonempty_array
  | ValueError_invalid_step_type json
  | ValueError_invalid_duration json
  | AttributeError
  | TypeError

text \<open>\<^verbatim>\<open>except (json.JSONDecodeError, ValueError)\<close>: the exceptions that clause catches.\<close>

fun caught :: "error \<Rightarrow> bool" where
  "caught AttributeError = False"
| "caught TypeError = False"
| "caught _ = True"

text \<open>What the command answers.\<close>

datatype reply =
    NotAdmin
  | Usage
  | InvalidValue
  | WindowSet int
  | StepsUpdated "json list"
  | InvalidFormat error
  | Unhandled error

text \<open>\<^verbatim>\<open>d.get(k, default)\<close> on a dict.\<close>

definition dict_get :: "(string \<times> json) list \<Rightarrow> string \<Rightarrow> json \<Rightarrow> json" where
  "dict_get d k dflt = (case map_of d k of None \<Rightarrow> dflt | Some v \<Rightarrow> v)"

text \<open>\<^verbatim>\<open>isinstance(v, int)\<close>: true of an \<^verbatim>\<open>int\<close> and of a \<^verbatim>\<open>bool\<close>, a subclass of \<^verbatim>\<open>int\<close>.\<close>

fun isinstance_int :: "json \<Rightarrow> bool" where
  "isinstance_int (JInt n) = True"
| "isinstance_int (JBool b) = True"
| "isinstance_int _ = False"

text \<open>\<^verbatim>\<open>v < 0\<close> for an instance of \<^verbatim>\<open>int\<close>: \<^verbatim>\<open>False\<close> is 0 and \<^verbatim>\<open>True\<close> is 1.\<close>

fun less_than_zero :: "json \<Rightarrow> bool" where
  "less_than_zero (JInt n) = (n < 0)"
| "less_than_zero _ = False"

text \<open>
  The body of the validation loop for one element. \<^verbatim>\<open>step.get\<close> exists on a dict only: any
  other element raises \<^verbatim>\<open>AttributeError\<close>.
\<close>

fun validate_step :: "json \<Rightarrow> error + json" where
  "validate_step (JObj step) =
     (let step_type = dict_get step ''type'' (JStr ''disable'');
          duration = dict_get step ''duration'' (JInt 0)
      in if step_type \<noteq> JStr ''warning'' \<and> step_type \<noteq> JStr ''disable''
         then Inl (ValueError_invalid_step_type step_type)
         else if \<not> isinstance_int duration \<or> less_than_zero duration
         then Inl (ValueError_invalid_duration duration)
         else Inr (JObj [(''type'', step_type), (''duration'', duration)]))"
| "validate_step _ = Inl AttributeError"

text \<open>The loop \<^verbatim>\<open>for step in steps_data\<close>: the first exception ends it.\<close>

fun validate_steps :: "json list \<Rightarrow> error + json list" where
  "validate_steps [] = Inr []"
| "validate_steps (step # rest) =
     (case validate_step step of
        Inl e \<Rightarrow> Inl e
      | Inr v \<Rightarrow> (case validate_steps rest of Inl e \<Rightarrow> Inl e | Inr vs \<Rightarrow> Inr (v # vs)))"

text \<open>\<^verbatim>\<open>" ".join(context.args)\<close>.\<close>

fun join_space :: "string list \<Rightarrow> string" where
  "join_space [] = []"
| "join_space [a] = a"
| "join_space (a # b # rest) = a @ '' '' @ join_space (b # rest)"

text \<open>
  The \<^verbatim>\<open>try\<close> block of \<^verbatim>\<open>punishment_set_steps\<close>. \<^verbatim>\<open>json.loads\<close> is a parameter, \<open>None\<close>
  standing for its \<^verbatim>\<open>JSONDecodeError\<close>; \<open>cfg\<close> is the
  configuration \<^verbatim>\<open>read_config\<close> returns and the second component of the result is the one
  \<^verbatim>\<open>write_json_file\<close> stores. Assigning into \<^verbatim>\<open>config_data["punishment"]\<close> raises
  \<^verbatim>\<open>TypeError\<close> when that value is not a dict.
\<close>

definition set_steps_try ::
  "(string \<Rightarrow> json option) \<Rightarrow> string list \<Rightarrow> config \<Rightarrow> error + (json list \<times> config)" where
  "set_steps_try json_loads args cfg =
     (case json_loads (join_space args) of
        None \<Rightarrow> Inl JSONDecodeError
      | Some steps_data \<Rightarrow>
         (case steps_data of
            JArr steps \<Rightarrow>
              if length steps = 0 then Inl ValueError_not_nonempty_array
              else (case validate_steps steps of
                      Inl e \<Rightarrow> Inl e
                    | Inr validated_steps \<Rightarrow>
                       (case map_of cfg ''punishment'' of
                          None \<Rightarrow>
                            Inr (validated_steps,
                                 AList.update ''punishment''
                                   (JObj [(''enabled'', JBool True), (''window_hours'', JInt 72),
                                          (''steps'', JArr validated_steps)]) cfg)
                        | Some (JObj p) \<Rightarrow>
                            Inr (validated_steps,
                                 AList.update ''punishment''
                                   (JObj (AList.update ''steps'' (JArr validated_steps) p)) cfg)
                        | Some _ \<Rightarrow> Inl TypeError))
          | _ \<Rightarrow> Inl ValueError_not_nonempty_array))"

text \<open>
  \<^verbatim>\<open>punishment_set_steps\<close>. The admin check is taken by its result. Without arguments the
  command answers with its usage text; an exception the \<^verbatim>\<open>except\<close> clause catches is answered
  with "Invalid format"; any other exception leaves the handler. In all three cases
  \<^verbatim>\<open>write_json_file\<close> has not been reached.
\<close>

definition punishment_set_steps ::
  "(string \<Rightarrow> json option) \<Rightarrow> bool \<Rightarrow> string list \<Rightarrow> config \<Rightarrow> reply \<times> config" where
  "punishment_set_steps json_loads is_admin args cfg =
     (if \<not> is_admin then (NotAdmin, cfg)
      else if args = [] then (Usage, cfg)
      else (case set_steps_try json_loads args cfg of
              Inl e \<Rightarrow> (if caught e then InvalidFormat e else Unhandled e, cfg)
            | Inr (validated_steps, cfg') \<Rightarrow> (StepsUpdated validated_steps, cfg')))"

text \<open>
  \<^verbatim>\<open>punishment_set_window\<close>. \<^verbatim>\<open>int(context.args[0])\<close> is a parameter, \<open>None\<close> standing for its
  \<^verbatim>\<open>ValueError\<close>, which the handler passes over to answer with the usage text.
\<close>

definition punishment_set_window ::
  "(string \<Rightarrow> int option) \<Rightarrow> bool \<Rightarrow> string list \<Rightarrow> config \<Rightarrow> reply \<times> config" where
  "punishment_set_window int_of_str is_admin args cfg =
     (if \<not> is_admin then (NotAdmin, cfg)
      else if args = [] then (Usage, cfg)
      else (case int_of_str (hd args) of
              None \<Rightarrow> (Usage, cfg)
            | Some hours \<Rightarrow>
                if hours < 1 \<or> hours > 720 then (InvalidValue, cfg)
                else (case map_of cfg ''punishment'' of
                        None \<Rightarrow>
                          (WindowSet hours,
                           AList.update ''punishment''
                             (JObj [(''enabled'', JBool True), (''window_hours'', JInt hours),
                                    (''steps'', JArr [])]) cfg)
                      | Some (JObj p) \<Rightarrow>
                          (WindowSet hours,
                           AList.update ''punishment''
                             (JObj (AList.update ''window_hours'' (JInt hours) p)) cfg)
                      | Some _ \<Rightarrow> (Unhandled TypeError, cfg))))"

text \<open>Reading one key of the stored punishment configuration.\<close>

definition punishment_value :: "config \<Rightarrow> string \<Rightarrow> json option" where
  "punishment_value cfg k =
     (case map_of cfg ''punishment'' of Some (JObj p) \<Rightarrow> map_of p k | _ \<Rightarrow> None)"


section \<open>Punishment policy and monitoring warnings (utils/punishment_system, utils/warning_system)\<close>

text \<open>
  Modelled from the spec: \<^verbatim>\<open>PunishmentStep\<close> and \<^verbatim>\<open>step_for_count\<close> of
  \<^verbatim>\<open>utils.punishment_system\<close>, which is not among the sources. A step has a type, warning or
  disable, and a duration in minutes; the steps are an ordered sequence whose index is the
  escalation level. \<^verbatim>\<open>step_for_count(n)\<close> returns \<^verbatim>\<open>steps[clamp(n, 0, len(steps)-1)]\<close>.
\<close>

datatype step_type = warning | disable

record PunishmentStep =
  step_kind :: step_type
  duration_minutes :: int

definition clamp :: "int \<Rightarrow> int \<Rightarrow> int \<Rightarrow> int" where
  "clamp n lo hi = max lo (min n hi)"

text \<open>
  Modelled from the spec: the index \<^verbatim>\<open>clamp(n, 0, len(steps)-1)\<close> that \<^verbatim>\<open>step_for_count\<close> reads,
  the severity level of the step it returns.
\<close>

definition step_index_for_count :: "PunishmentStep list \<Rightarrow> int \<Rightarrow> int" where
  "step_index_for_count steps n = clamp n 0 (int (length steps) - 1)"

text \<open>
  Modelled from the spec: \<^verbatim>\<open>step_for_count\<close>. Reading an empty sequence is an index error,
  the value \<open>None\<close>.
\<close>

definition step_for_count :: "PunishmentStep list \<Rightarrow> int \<Rightarrow> PunishmentStep option" where
  "step_for_count steps n =
     (let i = step_index_for_count steps n
      in if 0 \<le> i \<and> i < int (length steps) then Some (steps ! nat i) else None)"

text \<open>
  Modelled from the spec: \<^verbatim>\<open>MonitoringWarning\<close> of \<^verbatim>\<open>utils.warning_system\<close>, which is not
  among the sources: the user, the creation time, the monitoring duration in seconds, the
  last observed IP count and the snapshots (timestamp, ip count, ip set) in the order
  they were appended.
\<close>

record snapshot =
  snap_time :: real
  snap_ip_count :: nat
  snap_ips :: "string set"

record MonitoringWarning =
  warned_user :: string
  created_at :: real
  monitoring_duration :: int
  last_ip_count :: nat
  snapshots :: "snapshot list"

text \<open>
  Modelled from the spec: \<^verbatim>\<open>is_monitoring_active\<close>, which returns false once
  \<^verbatim>\<open>now - created_at >= monitoring_duration\<close>. It reads the clock and no stored state.
\<close>

definition is_monitoring_active :: "real \<Rightarrow> MonitoringWarning \<Rightarrow> bool" where
  "is_monitoring_active now w \<longleftrightarrow> \<not> (now - created_at w \<ge> of_int (monitoring_duration w))"

text \<open>
  Modelled from the spec: the result of \<^verbatim>\<open>analyze_user_activity_patterns\<close> and the metrics
  it is made of. Peak and mean are taken over the snapshots' ip counts; the change
  frequency is the fraction of consecutive snapshot pairs whose ip sets differ; an IP is
  consistently active when the snapshots holding it span at least 240 seconds. With no
  snapshots every metric is zero or empty.
\<close>

record analysis =
  total_snapshots :: nat
  peak_ip_count :: nat
  average_ip_count :: real
  ip_change_frequency :: real
  consistently_active_ips :: "string set"

definition peak_of :: "snapshot list \<Rightarrow> nat" where
  "peak_of snaps = fold max (map snap_ip_count snaps) 0"

definition average_of :: "snapshot list \<Rightarrow> real" where
  "average_of snaps =
     (if snaps = [] then 0
      else real (sum_list (map snap_ip_count snaps)) / real (length snaps))"

definition change_frequency_of :: "snapshot list \<Rightarrow> real" where
  "change_frequency_of snaps =
     (let transitions = zip snaps (tl snaps)
      in if transitions = [] then 0
         else real (length (filter (\<lambda>(a, b). snap_ips a \<noteq> snap_ips b) transitions))
                / real (length transitions))"

definition consistently_active_threshold :: real where
  "consistently_active_threshold = 240"

definition span_of :: "snapshot list \<Rightarrow> string \<Rightarrow> real" where
  "span_of snaps ip =
     (let ts = map snap_time (filter (\<lambda>s. ip \<in> snap_ips s) snaps)
      in if ts = [] then 0 else fold max ts (hd ts) - fold min ts (hd ts))"

definition consistently_active_of :: "snapshot list \<Rightarrow> string set" where
  "consistently_active_of snaps =
     {ip \<in> \<Union> (set (map snap_ips snaps)). span_of snaps ip \<ge> consistently_active_threshold}"

text \<open>
  Modelled from the spec: \<^verbatim>\<open>analyze_user_activity_patterns\<close> over the registry of warnings,
  a mapping from username to warning. An unknown username is analysed as a user without
  snapshots.
\<close>

definition analyze_user_activity_patterns ::
  "(string \<rightharpoonup> MonitoringWarning) \<Rightarrow> string \<Rightarrow> analysis" where
  "analyze_user_activity_patterns warnings u =
     (let snaps = (case warnings u of None \<Rightarrow> [] | Some w \<Rightarrow> snapshots w)
      in \<lparr>total_snapshots = length snaps,
          peak_ip_count = peak_of snaps,
          average_ip_count = average_of snaps,
          ip_change_frequency = change_frequency_of snaps,
          consistently_active_ips = consistently_active_of snaps\<rparr>)"


section \<open>Properties of the violation store\<close>

lemma in_window_age:
  "in_window now u w = (\<lambda>r. username r = u \<and> now - timestamp r \<le> of_int w * 3600)"
  by (rule ext) (auto simp: in_window_def cutoff_def)

lemma sorted_neg_iff:
  "sorted (map (\<lambda>r. - timestamp r) xs) \<longleftrightarrow> sorted_wrt (\<lambda>a b. timestamp a \<ge> timestamp b) xs"
  by (induction xs) auto

lemma sorted_wrt_strict_of_distinct:
  "sorted_wrt (\<lambda>a b. f a \<ge> f b) xs \<Longrightarrow> distinct (map f xs)
     \<Longrightarrow> sorted_wrt (\<lambda>a b. (f a :: real) > f b) xs"
proof (induction xs)
  case Nil
  then show ?case by simp
next
  case (Cons a xs)
  have "f x < f a" if "x \<in> set xs" for x
  proof -
    have "f x \<le> f a" using Cons.prems(1) that by simp
    moreover have "f a \<notin> f ` set xs" using Cons.prems(2) by simp
    then have "f x \<noteq> f a" using that by (metis imageI)
    ultimately show ?thesis by simp
  qed
  with Cons show ?case by simp
qed

text \<open>
  C1. A violation recorded for \<open>u\<close> at time \<open>T\<close> (the clock value \<^verbatim>\<open>add\<close> stores in the row)
  is counted by \<^verbatim>\<open>get_violation_count(u, w)\<close> evaluated at time \<open>T'\<close> if and only if
  \<open>T' - T \<le> w * 3600\<close>: adding the record raises the count by one exactly then, the
  boundary \<open>T' - T = w * 3600\<close> included. In general the count is the number of rows of \<open>u\<close>
  whose age is at most \<open>w * 3600\<close> seconds.
\<close>

theorem get_violation_count_window:
  "get_violation_count T' (snd (add T db u step dur cnt addrs)) u w =
     get_violation_count T' db u w + (if T' - T \<le> of_int w * 3600 then 1 else 0)
   \<and> timestamp (fst (add T db u step dur cnt addrs)) = T
   \<and> get_violation_count T' db u w =
       length (filter (\<lambda>r. username r = u \<and> T' - timestamp r \<le> of_int w * 3600) (rows db))"
  by (simp add: get_violation_count_def add_def Let_def in_window_age)

text \<open>
  C4. After \<^verbatim>\<open>clear_user(u)\<close> the count of \<open>u\<close> is 0 for every window and at every time,
  whatever the store held before.
\<close>

theorem clear_user_then_count:
  "get_violation_count now (snd (clear_user db u)) u w = 0"
  by (simp add: get_violation_count_def clear_user_def in_window_def)

text \<open>
  C5, amended. \<^verbatim>\<open>get_user_violations(u, w)\<close> returns exactly the rows of \<open>u\<close> whose age is at
  most \<open>w * 3600\<close> seconds, each as often as the table holds it, newest first: the
  timestamps never increase along the result. They decrease strictly when the selected
  rows have pairwise distinct timestamps.
\<close>

theorem get_user_violations_newest_first:
  "mset (get_user_violations now db u w)
     = mset (filter (\<lambda>r. username r = u \<and> now - timestamp r \<le> of_int w * 3600) (rows db))
   \<and> sorted_wrt (\<lambda>a b. timestamp a \<ge> timestamp b) (get_user_violations now db u w)
   \<and> (distinct (map timestamp
          (filter (\<lambda>r. username r = u \<and> now - timestamp r \<le> of_int w * 3600) (rows db)))
        \<longrightarrow> sorted_wrt (\<lambda>a b. timestamp a > timestamp b) (get_user_violations now db u w))"
proof -
  let ?sel = "filter (\<lambda>r. username r = u \<and> now - timestamp r \<le> of_int w * 3600) (rows db)"
  let ?res = "get_user_violations now db u w"
  have res: "?res = sort_key (\<lambda>r. - timestamp r) ?sel"
    by (simp add: get_user_violations_def in_window_age)
  have m: "mset ?res = mset ?sel"
    unfolding res by simp
  have s: "sorted_wrt (\<lambda>a b. timestamp a \<ge> timestamp b) ?res"
    unfolding res sorted_neg_iff [symmetric] by (rule sorted_sort_key)
  have "sorted_wrt (\<lambda>a b. timestamp a > timestamp b) ?res" if d: "distinct (map timestamp ?sel)"
  proof -
    have e: "mset (map timestamp ?res) = mset (map timestamp ?sel)"
      by (simp only: mset_map m)
    have "distinct (map timestamp ?res)"
      using d mset_eq_imp_distinct_iff [OF e] by simp
    with s show ?thesis
      by (rule sorted_wrt_strict_of_distinct)
  qed
  then show ?thesis using m s by simp
qed

text \<open>
  Two violations of one user recorded at times 100 and 150 and listed at time 200: the
  timestamps are distinct, and the result is the newer row before the older one.
\<close>

theorem get_user_violations_newest_first_witness:
  "distinct (map timestamp
      (filter (\<lambda>r. username r = ''u'' \<and> 200 - timestamp r \<le> of_int 72 * 3600)
         (rows (snd (add 150 (snd (add 100 \<lparr>rows = [], next_id = 1\<rparr> ''u'' 0 0 None None))
                 ''u'' 1 15 None None)))))
   \<and> map timestamp (get_user_violations 200
         (snd (add 150 (snd (add 100 \<lparr>rows = [], next_id = 1\<rparr> ''u'' 0 0 None None))
                 ''u'' 1 15 None None)) ''u'' 72) = [150, 100]
   \<and> sorted_wrt (\<lambda>a b. timestamp a > timestamp b) (get_user_violations 200
         (snd (add 150 (snd (add 100 \<lparr>rows = [], next_id = 1\<rparr> ''u'' 0 0 None None))
                 ''u'' 1 15 None None)) ''u'' 72)"
  using get_user_violations_newest_first [of 200
         "snd (add 150 (snd (add 100 \<lparr>rows = [], next_id = 1\<rparr> ''u'' 0 0 None None))
                 ''u'' 1 15 None None)" "''u''" 72]
  by (simp add: add_def Let_def get_user_violations_def in_window_def cutoff_def)

text \<open>
  C5 as stated fails: two violations of one user recorded with the same clock value 100
  are both returned, so the timestamps of the result are not strictly descending.
\<close>

theorem get_user_violations_ties:
  "\<not> sorted_wrt (>) (map timestamp
      (get_user_violations 200
         (snd (add 100 (snd (add 100 \<lparr>rows = [], next_id = 1\<rparr> ''u'' 0 0 None None))
                 ''u'' 1 15 None None))
         ''u'' 72))"
  by (simp add: add_def Let_def get_user_violations_def in_window_def cutoff_def)

text \<open>
  C9. \<^verbatim>\<open>clear_user(u)\<close> returns the number of rows of \<open>u\<close> and keeps exactly the rows of the
  other users, in their order. For every other user \<open>v\<close> the rows of \<open>v\<close>, and so the
  counts and listings of \<open>v\<close> for every window and time, are unchanged.
\<close>

theorem clear_user_frame:
  "fst (clear_user db u) = length (filter (\<lambda>r. username r = u) (rows db))
   \<and> rows (snd (clear_user db u)) = filter (\<lambda>r. username r \<noteq> u) (rows db)
   \<and> (\<forall>v. v \<noteq> u \<longrightarrow>
         filter (\<lambda>r. username r = v) (rows (snd (clear_user db u)))
           = filter (\<lambda>r. username r = v) (rows db)
       \<and> (\<forall>now w. get_violation_count now (snd (clear_user db u)) v w
                      = get_violation_count now db v w
                \<and> get_user_violations now (snd (clear_user db u)) v w
                      = get_user_violations now db v w))"
proof -
  have keep: "filter (\<lambda>r. username r \<noteq> u \<and> P r) xs = filter P xs"
    if "\<And>r. P r \<Longrightarrow> username r \<noteq> u" for P and xs :: "ViolationHistory list"
    using that by (intro filter_cong) auto
  have a: "filter (\<lambda>r. username r \<noteq> u \<and> username r = v) (rows db)
             = filter (\<lambda>r. username r = v) (rows db)" if "v \<noteq> u" for v
    using that by (intro keep) simp
  have b: "filter (\<lambda>r. username r \<noteq> u \<and> in_window now v w r) (rows db)
             = filter (in_window now v w) (rows db)" if "v \<noteq> u" for v now w
    using that by (intro keep) (simp add: in_window_def)
  show ?thesis
    by (simp add: clear_user_def get_violation_count_def get_user_violations_def a b)
qed

text \<open>
  A table with one violation of alice between two of bob: clearing alice deletes one row
  and bob's two rows stay as they were.
\<close>

theorem clear_user_frame_witness:
  "''bob'' \<noteq> ''alice''
   \<and> fst (clear_user
        (snd (add 30 (snd (add 20 (snd (add 10 \<lparr>rows = [], next_id = 1\<rparr>
           ''bob'' 0 0 None None)) ''alice'' 0 0 None None)) ''bob'' 1 15 (Some 3) None))
        ''alice'') = 1
   \<and> map vid (filter (\<lambda>r. username r = ''bob'') (rows (snd (clear_user
        (snd (add 30 (snd (add 20 (snd (add 10 \<lparr>rows = [], next_id = 1\<rparr>
           ''bob'' 0 0 None None)) ''alice'' 0 0 None None)) ''bob'' 1 15 (Some 3) None))
        ''alice'')))) = [1, 3]
   \<and> filter (\<lambda>r. username r = ''bob'') (rows (snd (clear_user
        (snd (add 30 (snd (add 20 (snd (add 10 \<lparr>rows = [], next_id = 1\<rparr>
           ''bob'' 0 0 None None)) ''alice'' 0 0 None None)) ''bob'' 1 15 (Some 3) None))
        ''alice'')))
      = filter (\<lambda>r. username r = ''bob'')
         (rows (snd (add 30 (snd (add 20 (snd (add 10 \<lparr>rows = [], next_id = 1\<rparr>
           ''bob'' 0 0 None None)) ''alice'' 0 0 None None)) ''bob'' 1 15 (Some 3) None)))"
  using clear_user_frame [of
        "snd (add 30 (snd (add 20 (snd (add 10 \<lparr>rows = [], next_id = 1\<rparr>
           ''bob'' 0 0 None None)) ''alice'' 0 0 None None)) ''bob'' 1 15 (Some 3) None)"
        "''alice''"]
  by (simp add: add_def Let_def)


section \<open>Properties of the configuration commands\<close>

lemma validate_step_object:
  assumes "map_of d ''type'' \<in> {None, Some (JStr ''warning''), Some (JStr ''disable'')}"
    and "map_of d ''duration'' = None \<or> (\<exists>n\<ge>0. map_of d ''duration'' = Some (JInt n))"
  shows "validate_step (JObj d) =
           Inr (JObj [(''type'', case map_of d ''type'' of None \<Rightarrow> JStr ''disable'' | Some t \<Rightarrow> t),
                      (''duration'', case map_of d ''duration'' of None \<Rightarrow> JInt 0 | Some v \<Rightarrow> v)])"
  using assms by (auto simp: dict_get_def)

lemma validate_steps_objects:
  assumes "\<forall>d\<in>set ds.
             map_of d ''type'' \<in> {None, Some (JStr ''warning''), Some (JStr ''disable'')}
           \<and> (map_of d ''duration'' = None \<or> (\<exists>n\<ge>0. map_of d ''duration'' = Some (JInt n)))"
  shows "validate_steps (map JObj ds) =
           Inr (map (\<lambda>d. JObj [(''type'', case map_of d ''type'' of None \<Rightarrow> JStr ''disable'' | Some t \<Rightarrow> t),
                      (''duration'', case map_of d ''duration'' of None \<Rightarrow> JInt 0 | Some v \<Rightarrow> v)]) ds)"
  using assms
proof (induction ds)
  case Nil
  then show ?case by simp
next
  case (Cons d ds)
  have "validate_step (JObj d) =
           Inr (JObj [(''type'', case map_of d ''type'' of None \<Rightarrow> JStr ''disable'' | Some t \<Rightarrow> t),
                      (''duration'', case map_of d ''duration'' of None \<Rightarrow> JInt 0 | Some v \<Rightarrow> v)])"
    using Cons.prems by (intro validate_step_object) simp_all
  moreover have "validate_steps (map JObj ds) =
           Inr (map (\<lambda>d. JObj [(''type'', case map_of d ''type'' of None \<Rightarrow> JStr ''disable'' | Some t \<Rightarrow> t),
                      (''duration'', case map_of d ''duration'' of None \<Rightarrow> JInt 0 | Some v \<Rightarrow> v)]) ds)"
    using Cons by simp
  ultimately show ?case by simp
qed

lemma punishment_value_update:
  "punishment_value (AList.update ''punishment'' (JObj p) cfg) k = map_of p k"
  by (simp add: punishment_value_def update_conv')

text \<open>
  Whenever \<^verbatim>\<open>punishment_set_steps\<close> does not answer that the steps were updated, the stored
  configuration is the one it found.
\<close>

lemma punishment_set_steps_keeps_config:
  assumes "\<forall>vs. fst (punishment_set_steps json_loads is_admin args cfg) \<noteq> StepsUpdated vs"
  shows "snd (punishment_set_steps json_loads is_admin args cfg) = cfg"
  using assms
  by (auto simp: punishment_set_steps_def split: if_splits sum.splits prod.splits)

text \<open>
  C2. The claim asks that a duration which is not a non-negative integer rejects the
  update. The command \<^verbatim>\<open>/punishment_set_steps [{"type":"disable","duration":true}]\<close> is
  accepted: \<^verbatim>\<open>isinstance(True, int)\<close> holds and \<^verbatim>\<open>True < 0\<close> does not, so the boolean passes
  the duration check and is stored as the duration of the step, in place of the steps
  configured before.
\<close>

theorem punishment_set_steps_boolean_duration:
  \<open>punishment_set_steps
      [''[{"type":"disable","duration":true}]'' \<mapsto>
         JArr [JObj [(''type'', JStr ''disable''), (''duration'', JBool True)]]]
      True [''[{"type":"disable","duration":true}]'']
      [(''punishment'', JObj [(''enabled'', JBool True), (''window_hours'', JInt 72),
         (''steps'', JArr [JObj [(''type'', JStr ''warning''), (''duration'', JInt 0)]])])]
    = (StepsUpdated [JObj [(''type'', JStr ''disable''), (''duration'', JBool True)]],
       [(''punishment'', JObj [(''enabled'', JBool True), (''window_hours'', JInt 72),
         (''steps'', JArr [JObj [(''type'', JStr ''disable''), (''duration'', JBool True)]])])])\<close>
  by (simp add: punishment_set_steps_def set_steps_try_def dict_get_def)

text \<open>
  C10. For a non-empty array of JSON objects, submitted by an admin while the stored
  punishment configuration is absent or a dict: if every element has no type or one of
  the types "warning" and "disable", and no duration or a non-negative integer duration,
  the update is accepted and the stored steps are the elements reduced to type and
  duration, a missing type read as "disable" and a missing duration as 0. So the update
  is turned down only when some element has a type that is present and outside the two
  values, or a duration that is present and not a non-negative integer.
\<close>

theorem punishment_set_steps_missing_keys:
  assumes "is_admin" and "args \<noteq> []"
    and "json_loads (join_space args) = Some (JArr (map JObj ds))" and "ds \<noteq> []"
    and "map_of cfg ''punishment'' = None \<or> (\<exists>p. map_of cfg ''punishment'' = Some (JObj p))"
  shows "((\<forall>d\<in>set ds.
             map_of d ''type'' \<in> {None, Some (JStr ''warning''), Some (JStr ''disable'')}
           \<and> (map_of d ''duration'' = None \<or> (\<exists>n\<ge>0. map_of d ''duration'' = Some (JInt n))))
          \<longrightarrow> fst (punishment_set_steps json_loads is_admin args cfg) =
                StepsUpdated (map (\<lambda>d. JObj
                  [(''type'', case map_of d ''type'' of None \<Rightarrow> JStr ''disable'' | Some t \<Rightarrow> t),
                   (''duration'', case map_of d ''duration'' of None \<Rightarrow> JInt 0 | Some v \<Rightarrow> v)]) ds)
              \<and> punishment_value (snd (punishment_set_steps json_loads is_admin args cfg)) ''steps'' =
                Some (JArr (map (\<lambda>d. JObj
                  [(''type'', case map_of d ''type'' of None \<Rightarrow> JStr ''disable'' | Some t \<Rightarrow> t),
                   (''duration'', case map_of d ''duration'' of None \<Rightarrow> JInt 0 | Some v \<Rightarrow> v)]) ds)))
       \<and> ((\<forall>vs. fst (punishment_set_steps json_loads is_admin args cfg) \<noteq> StepsUpdated vs)
          \<longrightarrow> (\<exists>d\<in>set ds.
                 (\<exists>t. map_of d ''type'' = Some t \<and> t \<noteq> JStr ''warning'' \<and> t \<noteq> JStr ''disable'')
               \<or> (\<exists>v. map_of d ''duration'' = Some v \<and> (\<forall>n. v = JInt n \<longrightarrow> n < 0))))"
proof -
  let ?ok = "\<lambda>d. map_of d ''type'' \<in> {None, Some (JStr ''warning''), Some (JStr ''disable'')}
           \<and> (map_of d ''duration'' = None \<or> (\<exists>n\<ge>0. map_of d ''duration'' = Some (JInt n)))"
  let ?red = "map (\<lambda>d. JObj
                  [(''type'', case map_of d ''type'' of None \<Rightarrow> JStr ''disable'' | Some t \<Rightarrow> t),
                   (''duration'', case map_of d ''duration'' of None \<Rightarrow> JInt 0 | Some v \<Rightarrow> v)]) ds"
  let ?r = "punishment_set_steps json_loads is_admin args cfg"
  have acc: "fst ?r = StepsUpdated ?red \<and> punishment_value (snd ?r) ''steps'' = Some (JArr ?red)"
    if ok: "\<forall>d\<in>set ds. ?ok d"
  proof -
    have v: "validate_steps (map JObj ds) = Inr ?red"
      using ok by (rule validate_steps_objects)
    from assms(5) show ?thesis
    proof
      assume "map_of cfg ''punishment'' = None"
      then show ?thesis
        using assms(1-4) v
        by (simp add: punishment_set_steps_def set_steps_try_def punishment_value_update)
    next
      assume "\<exists>p. map_of cfg ''punishment'' = Some (JObj p)"
      then obtain p where "map_of cfg ''punishment'' = Some (JObj p)" ..
      then show ?thesis
        using assms(1-4) v
        by (simp add: punishment_set_steps_def set_steps_try_def punishment_value_update update_conv')
    qed
  qed
  have rej: "\<exists>d\<in>set ds.
                 (\<exists>t. map_of d ''type'' = Some t \<and> t \<noteq> JStr ''warning'' \<and> t \<noteq> JStr ''disable'')
               \<or> (\<exists>v. map_of d ''duration'' = Some v \<and> (\<forall>n. v = JInt n \<longrightarrow> n < 0))"
    if "\<forall>vs. fst ?r \<noteq> StepsUpdated vs"
  proof (rule ccontr)
    assume n: "\<not> ?thesis"
    have "?ok d" if "d \<in> set ds" for d
    proof -
      from n that have t: "\<And>t. map_of d ''type'' = Some t \<Longrightarrow> t = JStr ''warning'' \<or> t = JStr ''disable''"
        and u: "\<And>v. map_of d ''duration'' = Some v \<Longrightarrow> \<exists>n. v = JInt n \<and> \<not> n < 0"
        by blast+
      have "map_of d ''type'' \<in> {None, Some (JStr ''warning''), Some (JStr ''disable'')}"
        using t by (cases "map_of d ''type''") auto
      moreover have "map_of d ''duration'' = None \<or> (\<exists>n\<ge>0. map_of d ''duration'' = Some (JInt n))"
        using u by (cases "map_of d ''duration''") auto
      ultimately show ?thesis by simp
    qed
    then have "fst ?r = StepsUpdated ?red" using acc by blast
    with \<open>\<forall>vs. fst ?r \<noteq> StepsUpdated vs\<close> show False by blast
  qed
  from acc rej show ?thesis by blast
qed

text \<open>
  An element without a type and an element without a duration are accepted with the
  defaults; an element of type "ban" is turned down and the configuration stays empty.
\<close>

theorem punishment_set_steps_missing_keys_witness:
  \<open>fst (punishment_set_steps
       [''[{"duration":15},{"type":"warning"}]'' \<mapsto>
          JArr (map JObj [[(''duration'', JInt 15)], [(''type'', JStr ''warning'')]])]
       True [''[{"duration":15},{"type":"warning"}]''] [])
     = StepsUpdated [JObj [(''type'', JStr ''disable''), (''duration'', JInt 15)],
                     JObj [(''type'', JStr ''warning''), (''duration'', JInt 0)]]
   \<and> punishment_value (snd (punishment_set_steps
       [''[{"duration":15},{"type":"warning"}]'' \<mapsto>
          JArr (map JObj [[(''duration'', JInt 15)], [(''type'', JStr ''warning'')]])]
       True [''[{"duration":15},{"type":"warning"}]''] [])) ''steps''
     = Some (JArr [JObj [(''type'', JStr ''disable''), (''duration'', JInt 15)],
                   JObj [(''type'', JStr ''warning''), (''duration'', JInt 0)]])
   \<and> punishment_set_steps
       [''[{"type":"ban"}]'' \<mapsto> JArr (map JObj [[(''type'', JStr ''ban'')]])]
       True [''[{"type":"ban"}]''] []
     = (InvalidFormat (ValueError_invalid_step_type (JStr ''ban'')), [])\<close>
  using punishment_set_steps_missing_keys [of True \<open>[''[{"duration":15},{"type":"warning"}]'']\<close>
      \<open>[''[{"duration":15},{"type":"warning"}]'' \<mapsto>
          JArr (map JObj [[(''duration'', JInt 15)], [(''type'', JStr ''warning'')]])]\<close>
      \<open>[[(''duration'', JInt 15)], [(''type'', JStr ''warning'')]]\<close> \<open>[]\<close>]
    punishment_set_steps_missing_keys [of True \<open>[''[{"type":"ban"}]'']\<close>
      \<open>[''[{"type":"ban"}]'' \<mapsto> JArr (map JObj [[(''type'', JStr ''ban'')]])]\<close>
      \<open>[[(''type'', JStr ''ban'')]]\<close> \<open>[]\<close>]
  by (simp add: punishment_set_steps_def set_steps_try_def dict_get_def)

text \<open>
  C6, amended. For an admin's \<^verbatim>\<open>punishment_set_window\<close> whose argument reads as the integer
  \<open>h\<close>, with the stored punishment configuration absent or a dict: if \<open>1 \<le> h \<le> 720\<close> the
  command accepts \<open>h\<close> and stores \<^verbatim>\<open>window_hours = h\<close>; if \<open>h < 1\<close> or \<open>h > 720\<close> it answers
  "Invalid value" and the stored configuration is unchanged.
\<close>

theorem punishment_set_window_range:
  assumes "is_admin" and "args \<noteq> []" and "int_of_str (hd args) = Some h"
    and "map_of cfg ''punishment'' = None \<or> (\<exists>p. map_of cfg ''punishment'' = Some (JObj p))"
  shows "(1 \<le> h \<and> h \<le> 720 \<longrightarrow>
            fst (punishment_set_window int_of_str is_admin args cfg) = WindowSet h
          \<and> punishment_value (snd (punishment_set_window int_of_str is_admin args cfg))
               ''window_hours'' = Some (JInt h))
       \<and> (h < 1 \<or> 720 < h \<longrightarrow>
            punishment_set_window int_of_str is_admin args cfg = (InvalidValue, cfg))"
proof -
  from assms(4) show ?thesis
  proof
    assume "map_of cfg ''punishment'' = None"
    then show ?thesis
      using assms(1-3) by (auto simp: punishment_set_window_def punishment_value_update)
  next
    assume "\<exists>p. map_of cfg ''punishment'' = Some (JObj p)"
    then obtain p where "map_of cfg ''punishment'' = Some (JObj p)" ..
    then show ?thesis
      using assms(1-3)
      by (auto simp: punishment_set_window_def punishment_value_update update_conv')
  qed
qed

text \<open>72 hours are accepted and stored; 0 hours are turned down.\<close>

theorem punishment_set_window_range_witness:
  "punishment_set_window [''72'' \<mapsto> 72] True [''72''] [] =
     (WindowSet 72,
      [(''punishment'', JObj [(''enabled'', JBool True), (''window_hours'', JInt 72),
                              (''steps'', JArr [])])])
   \<and> punishment_value (snd (punishment_set_window [''72'' \<mapsto> 72] True [''72''] []))
        ''window_hours'' = Some (JInt 72)
   \<and> punishment_set_window [''0'' \<mapsto> 0] True [''0''] [] = (InvalidValue, [])"
  using punishment_set_window_range [of True "[''72'']" "[''72'' \<mapsto> 72]" 72 "[]"]
    punishment_set_window_range [of True "[''0'']" "[''0'' \<mapsto> 0]" 0 "[]"]
  by (simp add: punishment_set_window_def)

text \<open>
  C6 as stated fails: 721 hours are turned down by the guard \<^verbatim>\<open>hours > 720\<close>, and the
  stored window stays at 72 hours.
\<close>

theorem punishment_set_window_rejects_721:
  "punishment_set_window [''721'' \<mapsto> 721] True [''721'']
      [(''punishment'', JObj [(''enabled'', JBool True), (''window_hours'', JInt 72),
                              (''steps'', JArr [])])]
    = (InvalidValue,
       [(''punishment'', JObj [(''enabled'', JBool True), (''window_hours'', JInt 72),
                               (''steps'', JArr [])])])"
  by (simp add: punishment_set_window_def)


section \<open>Properties of the policy and of the monitoring warnings\<close>

text \<open>
  C3. For a non-empty sequence of steps and \<open>n \<ge> 0\<close>, \<^verbatim>\<open>step_for_count(n)\<close> is
  \<^verbatim>\<open>steps[min(n, len(steps)-1)]\<close>; it is \<^verbatim>\<open>steps[0]\<close> for \<open>n = 0\<close>; the severity level it
  reads, the index of the step, never decreases as the count grows; it is the last step
  from \<open>n = len(steps)-1\<close> on; and the index stays in range.
\<close>

theorem step_for_count_saturates:
  assumes "steps \<noteq> []" and "0 \<le> n"
  shows "step_for_count steps n = Some (steps ! min (nat n) (length steps - 1))
       \<and> step_for_count steps 0 = Some (steps ! 0)
       \<and> (\<forall>m. m \<le> n \<longrightarrow> step_index_for_count steps m \<le> step_index_for_count steps n)
       \<and> (int (length steps) - 1 \<le> n \<longrightarrow> step_for_count steps n = Some (last steps))
       \<and> 0 \<le> step_index_for_count steps n \<and> step_index_for_count steps n < int (length steps)"
proof -
  have len: "0 < length steps" using assms(1) by simp
  have idx: "nat (step_index_for_count steps n) = min (nat n) (length steps - 1)"
    using assms(2) len by (auto simp: step_index_for_count_def clamp_def min_def max_def)
  have rng: "0 \<le> step_index_for_count steps n \<and> step_index_for_count steps n < int (length steps)"
    using assms(2) len by (auto simp: step_index_for_count_def clamp_def min_def max_def)
  have a: "step_for_count steps n = Some (steps ! min (nat n) (length steps - 1))"
    using rng idx by (simp add: step_for_count_def Let_def)
  have b: "step_for_count steps 0 = Some (steps ! 0)"
    using len by (simp add: step_for_count_def step_index_for_count_def clamp_def Let_def)
  have c: "step_index_for_count steps m \<le> step_index_for_count steps n" if "m \<le> n" for m
    using that by (auto simp: step_index_for_count_def clamp_def min_def max_def)
  have d: "step_for_count steps n = Some (last steps)" if "int (length steps) - 1 \<le> n"
  proof -
    have "min (nat n) (length steps - 1) = length steps - 1" using that by auto
    then show ?thesis using a assms(1) by (simp add: last_conv_nth)
  qed
  from a b c d rng show ?thesis by blast
qed

text \<open>
  With the steps warning, disable for 15 minutes, disable for good: the first violation
  is warned and the count 5 saturates at the last step.
\<close>

theorem step_for_count_saturates_witness:
  "[\<lparr>step_kind = warning, duration_minutes = 0\<rparr>, \<lparr>step_kind = disable, duration_minutes = 15\<rparr>,
    \<lparr>step_kind = disable, duration_minutes = 0\<rparr>] \<noteq> [] \<and> (0::int) \<le> 5
   \<and> step_for_count
       [\<lparr>step_kind = warning, duration_minutes = 0\<rparr>, \<lparr>step_kind = disable, duration_minutes = 15\<rparr>,
        \<lparr>step_kind = disable, duration_minutes = 0\<rparr>] 5
      = Some \<lparr>step_kind = disable, duration_minutes = 0\<rparr>
   \<and> step_for_count
       [\<lparr>step_kind = warning, duration_minutes = 0\<rparr>, \<lparr>step_kind = disable, duration_minutes = 15\<rparr>,
        \<lparr>step_kind = disable, duration_minutes = 0\<rparr>] 0
      = Some \<lparr>step_kind = warning, duration_minutes = 0\<rparr>"
  using step_for_count_saturates [of
       "[\<lparr>step_kind = warning, duration_minutes = 0\<rparr>, \<lparr>step_kind = disable, duration_minutes = 15\<rparr>,
        \<lparr>step_kind = disable, duration_minutes = 0\<rparr>]" 5]
  by simp

text \<open>
  C7. \<^verbatim>\<open>is_monitoring_active\<close> is a function of the clock and of the warning's creation
  time and duration alone: it holds exactly while \<open>now - created_at < monitoring_duration\<close>.
  With a duration of 240 seconds it holds 100 seconds after the creation and no longer
  241 seconds after it.
\<close>

theorem is_monitoring_active_derived:
  "(is_monitoring_active now w \<longleftrightarrow> now - created_at w < of_int (monitoring_duration w))
   \<and> is_monitoring_active (created_at w + 100) (w\<lparr>monitoring_duration := 240\<rparr>)
   \<and> \<not> is_monitoring_active (created_at w + 241) (w\<lparr>monitoring_duration := 240\<rparr>)"
  by (simp add: is_monitoring_active_def not_le)

text \<open>
  C8. For a username that has no warning in the registry, or a warning without
  snapshots, the analysis has \<^verbatim>\<open>total_snapshots = 0\<close>, \<^verbatim>\<open>peak_ip_count = 0\<close>,
  \<^verbatim>\<open>average_ip_count = 0.0\<close>, \<^verbatim>\<open>ip_change_frequency = 0\<close> and no consistently active IP; the
  analysis is a total function, so this result is returned and nothing is raised.
\<close>

theorem analyze_zero_snapshots:
  assumes "warnings u = None \<or> (\<exists>w. warnings u = Some w \<and> snapshots w = [])"
  shows "analyze_user_activity_patterns warnings u =
           \<lparr>total_snapshots = 0, peak_ip_count = 0, average_ip_count = 0,
            ip_change_frequency = 0, consistently_active_ips = {}\<rparr>"
  using assms
  by (auto simp: analyze_user_activity_patterns_def peak_of_def average_of_def
        change_frequency_of_def consistently_active_of_def)

text \<open>An unknown username, and a warning that has no snapshot yet.\<close>

theorem analyze_zero_snapshots_witness:
  "analyze_user_activity_patterns Map.empty ''ghost'' =
           \<lparr>total_snapshots = 0, peak_ip_count = 0, average_ip_count = 0,
            ip_change_frequency = 0, consistently_active_ips = {}\<rparr>
   \<and> analyze_user_activity_patterns
        [''u'' \<mapsto> \<lparr>warned_user = ''u'', created_at = 1000, monitoring_duration = 240,
                   last_ip_count = 3, snapshots = []\<rparr>] ''u'' =
           \<lparr>total_snapshots = 0, peak_ip_count = 0, average_ip_count = 0,
            ip_change_frequency = 0, consistently_active_ips = {}\<rparr>"
  using analyze_zero_snapshots [of Map.empty "''ghost''"]
    analyze_zero_snapshots [of "[''u'' \<mapsto> \<lparr>warned_user = ''u'', created_at = 1000,
                   monitoring_duration = 240, last_ip_count = 3, snapshots = []\<rparr>]" "''u''"]
  by simp

end
